theory Spec2Isabelle
  imports Complex_Main "HOL-Library.Sublist" "HOL-Library.Log_Nat" "HOL-Library.State_Monad"
begin

section \<open>Data model\<close>

text \<open>
  The objects of \<^verbatim>\<open>app.js\<close>. A photo is what \<^verbatim>\<open>convertPhotoToBase64\<close> builds, a
  location what the GPS handler stores, an entry what \<^verbatim>\<open>createEntryObject\<close> builds.
  JavaScript strings are modelled as byte strings in UTF-8. Coordinates are the exact
  rational values of the doubles. The \<^verbatim>\<open>timestamp\<close> of an entry is kept as the time
  value (milliseconds since the epoch) that \<^verbatim>\<open>new Date(entry.timestamp)\<close> parses from
  the ISO string written by \<^verbatim>\<open>new Date().toISOString()\<close>; the \<^verbatim>\<open>id\<close> is the number
  \<^verbatim>\<open>Date.now()\<close> returned.
\<close>

record photoData =
  photo_data :: string
  photo_name :: string
  photo_type :: string
  photo_size :: nat
  photo_timestamp :: int

record location =
  lat :: rat
  lng :: rat
  accuracy :: rat

record entry =
  entry_id :: nat
  category :: string
  status :: string
  description :: string
  location :: "location option"
  photos :: "photoData list"
  timestamp :: int

section \<open>The object store\<close>

text \<open>
  \<^verbatim>\<open>initDB\<close> creates the object store \<^verbatim>\<open>entries\<close> with key path \<^verbatim>\<open>id\<close> and a
  non-unique index on \<^verbatim>\<open>timestamp\<close>. An IndexedDB object store holds at most one
  record per key and iterates in ascending key order, so its contents are a list of
  entries with strictly ascending ids. The three requests the wrappers issue:
  \<^verbatim>\<open>put\<close> stores the value under its key, replacing a record that has the key;
  \<^verbatim>\<open>delete\<close> removes the record with the key, if any; \<^verbatim>\<open>getAll\<close> lists the records in
  key order.
\<close>

type_synonym store = "entry list"

definition store_ok :: "store \<Rightarrow> bool" where
  "store_ok s = sorted_wrt (\<lambda>a b. entry_id a < entry_id b) s"

fun store_put :: "entry \<Rightarrow> store \<Rightarrow> store" where
  "store_put e [] = [e]"
| "store_put e (x # xs) =
     (if entry_id e < entry_id x then e # x # xs
      else if entry_id e = entry_id x then e # xs
      else x # store_put e xs)"

definition store_delete :: "nat \<Rightarrow> store \<Rightarrow> store" where
  "store_delete k s = filter (\<lambda>x. entry_id x \<noteq> k) s"

definition store_getAll :: "store \<Rightarrow> entry list" where
  "store_getAll s = s"

text \<open>The record stored under a key, if any; the wrappers do not ask for it.\<close>

definition store_get :: "store \<Rightarrow> nat \<Rightarrow> entry option" where
  "store_get s k = find (\<lambda>x. entry_id x = k) s"

text \<open>
  A promise settles as a value of a sum type: \<open>Inl\<close> the rejection, \<open>Inr\<close> the value it
  resolves with. Each wrapper awaits \<^verbatim>\<open>initDB()\<close>, which rejects with the error of the
  open request, then issues one request whose \<^verbatim>\<open>onerror\<close> rejects with the error of
  the request. Whether the medium fails is not decided by the program, so it is an
  argument of the model.
\<close>

datatype js_error = OpenError | RequestError | ReadError string | EstimateError

datatype medium = Healthy | OpenFails | RequestFails

subsection \<open>Array.prototype.sort\<close>

text \<open>
  \<^verbatim>\<open>entries.sort(comparefn)\<close> is a stable sort (ECMAScript 2019): an element moves in
  front of another only if the comparator returns a positive number for the pair in
  their present order. Insertion from the right gives exactly this order.
\<close>

fun sort_insert :: "('a \<Rightarrow> 'a \<Rightarrow> int) \<Rightarrow> 'a \<Rightarrow> 'a list \<Rightarrow> 'a list" where
  "sort_insert cmp x [] = [x]"
| "sort_insert cmp x (y # ys) =
     (if cmp x y \<le> 0 then x # y # ys else y # sort_insert cmp x ys)"

definition array_sort :: "('a \<Rightarrow> 'a \<Rightarrow> int) \<Rightarrow> 'a list \<Rightarrow> 'a list" where
  "array_sort cmp xs = foldr (sort_insert cmp) xs []"

subsection \<open>The wrappers of the store\<close>

definition saveToIndexedDB :: "medium \<Rightarrow> entry \<Rightarrow> store \<Rightarrow> (js_error + nat) \<times> store" where
  "saveToIndexedDB m e s =
     (case m of
        OpenFails \<Rightarrow> (Inl OpenError, s)
      | RequestFails \<Rightarrow> (Inl RequestError, s)
      | Healthy \<Rightarrow> (Inr (entry_id e), store_put e s))"

definition by_timestamp_desc :: "entry \<Rightarrow> entry \<Rightarrow> int" where
  "by_timestamp_desc a b = timestamp b - timestamp a"

definition getAllFromIndexedDB :: "medium \<Rightarrow> store \<Rightarrow> js_error + entry list" where
  "getAllFromIndexedDB m s =
     (case m of
        OpenFails \<Rightarrow> Inl OpenError
      | RequestFails \<Rightarrow> Inl RequestError
      | Healthy \<Rightarrow> Inr (array_sort by_timestamp_desc (store_getAll s)))"

definition deleteFromIndexedDB :: "medium \<Rightarrow> nat \<Rightarrow> store \<Rightarrow> (js_error + unit) \<times> store" where
  "deleteFromIndexedDB m k s =
     (case m of
        OpenFails \<Rightarrow> (Inl OpenError, s)
      | RequestFails \<Rightarrow> (Inl RequestError, s)
      | Healthy \<Rightarrow> (Inr (), store_delete k s))"

text \<open>The two orders a listing can have among entries of equal timestamp.\<close>

definition newer_then_id_desc :: "entry \<Rightarrow> entry \<Rightarrow> bool" where
  "newer_then_id_desc a b \<longleftrightarrow>
     timestamp b < timestamp a \<or> (timestamp a = timestamp b \<and> entry_id b < entry_id a)"

definition newer_then_id_asc :: "entry \<Rightarrow> entry \<Rightarrow> bool" where
  "newer_then_id_asc a b \<longleftrightarrow>
     timestamp b < timestamp a \<or> (timestamp a = timestamp b \<and> entry_id a < entry_id b)"

section \<open>Host environment\<close>

text \<open>
  What the browser decides and the program only calls: \<^verbatim>\<open>Number::toString\<close> (applied
  to a coordinate in a template and by \<^verbatim>\<open>toFixed\<close> from \<open>10\<^sup>2\<^sup>1\<close> on) and
  \<^verbatim>\<open>Date.prototype.toLocaleString\<close>, which depends on the locale and the time zone.
\<close>

record host =
  numToString :: "rat \<Rightarrow> string"
  toLocaleString :: "int \<Rightarrow> string"

section \<open>Utility functions\<close>

definition nl :: string where
  "nl = [CHR 0x0A]"

text \<open>
  The decimal digits of a natural number: what a template writes for a length, an
  index or an id, and what \<^verbatim>\<open>toFixed\<close> starts from.
\<close>

fun digits :: "nat \<Rightarrow> string" where
  "digits n =
     (if n < 10 then [''0123456789'' ! n]
      else digits (n div 10) @ [''0123456789'' ! (n mod 10)])"

declare digits.simps [simp del]

text \<open>
  \<^verbatim>\<open>Number.prototype.toFixed(f)\<close> as ECMAScript defines it, on the exact value of the
  number: the sign is split off, \<open>n\<close> is the integer with \<open>n / 10\<^sup>f\<close> closest to the
  value (the larger one of two), its digits are padded with zeros to \<open>f + 1\<close> places
  and the point is set before the last \<open>f\<close>.
\<close>

definition toFixed :: "host \<Rightarrow> nat \<Rightarrow> rat \<Rightarrow> string" where
  "toFixed h f x =
     (let s = (if x < 0 then ''-'' else []); a = \<bar>x\<bar>
      in if 10 ^ 21 \<le> a then s @ numToString h a
         else
           let n = nat \<lfloor>a * 10 ^ f + 1 / 2\<rfloor>;
               m = digits n;
               m' = (if f \<noteq> 0 \<and> length m \<le> f
                     then replicate (f + 1 - length m) CHR ''0'' @ m else m)
           in s @ (if f = 0 then m'
                   else take (length m' - f) m' @ ''.'' @ drop (length m' - f) m'))"

text \<open>
  \<^verbatim>\<open>formatBytes\<close>. A size is a natural number of bytes, and dividing it by 1024 is
  exact in double precision.
\<close>

definition formatBytes :: "host \<Rightarrow> nat \<Rightarrow> string" where
  "formatBytes h bytes =
     (if bytes = 0 then ''0 KB'' else toFixed h 1 (of_nat bytes / 1024) @ '' KB'')"

text \<open>
  \<^verbatim>\<open>escapeHtml\<close> assigns the text to \<^verbatim>\<open>textContent\<close> of a fresh \<^verbatim>\<open>div\<close> and reads
  \<^verbatim>\<open>innerHTML\<close> back. The element then has one text node, which the HTML fragment
  serialisation writes with \<^verbatim>\<open>&\<close>, U+00A0 (the bytes C2 A0), \<^verbatim>\<open><\<close> and \<^verbatim>\<open>>\<close>
  replaced by \<^verbatim>\<open>&amp;\<close>, \<^verbatim>\<open>&nbsp;\<close>, \<^verbatim>\<open>&lt;\<close> and \<^verbatim>\<open>&gt;\<close>.
\<close>

definition escape_char :: "char \<Rightarrow> string" where
  "escape_char c =
     (if c = CHR ''&'' then ''&amp;''
      else if c = CHR ''<'' then ''&lt;''
      else if c = CHR ''>'' then ''&gt;''
      else [c])"

fun escapeHtml :: "string \<Rightarrow> string" where
  "escapeHtml [] = []"
| "escapeHtml [c] = escape_char c"
| "escapeHtml (c # d # cs) =
     (if c = CHR 0xC2 \<and> d = CHR 0xA0 then ''&nbsp;'' @ escapeHtml cs
      else escape_char c @ escapeHtml (d # cs))"

text \<open>
  \<^verbatim>\<open>String.prototype.trim\<close>, for a string whose first and last characters other than
  ASCII white space are not white space at all, as is the text of the share template.
\<close>

definition js_space :: "char \<Rightarrow> bool" where
  "js_space c \<longleftrightarrow> c \<in> set [CHR 0x09, CHR 0x0A, CHR 0x0B, CHR 0x0C, CHR 0x0D, CHR 0x20]"

definition trim :: "string \<Rightarrow> string" where
  "trim s = rev (dropWhile js_space (rev (dropWhile js_space s)))"


definition emoji_alarm_clock :: string where
  "emoji_alarm_clock = [CHR 0xE2, CHR 0x8F, CHR 0xB0]"

definition emoji_heavy_rule :: string where
  "emoji_heavy_rule = [CHR 0xE2, CHR 0x94, CHR 0x81]"

definition emoji_check_mark :: string where
  "emoji_check_mark = [CHR 0xE2, CHR 0x9C, CHR 0x85]"

definition emoji_vs16 :: string where
  "emoji_vs16 = [CHR 0xEF, CHR 0xB8, CHR 0x8F]"

definition emoji_dart :: string where
  "emoji_dart = [CHR 0xF0, CHR 0x9F, CHR 0x8E, CHR 0xAF]"

definition emoji_folder :: string where
  "emoji_folder = [CHR 0xF0, CHR 0x9F, CHR 0x93, CHR 0x82]"

definition emoji_clipboard :: string where
  "emoji_clipboard = [CHR 0xF0, CHR 0x9F, CHR 0x93, CHR 0x8B]"

definition emoji_pin :: string where
  "emoji_pin = [CHR 0xF0, CHR 0x9F, CHR 0x93, CHR 0x8D]"

definition emoji_memo :: string where
  "emoji_memo = [CHR 0xF0, CHR 0x9F, CHR 0x93, CHR 0x9D]"


definition emoji_camera_flash :: string where
  "emoji_camera_flash = [CHR 0xF0, CHR 0x9F, CHR 0x93, CHR 0xB8]"



definition emoji_world_map :: string where
  "emoji_world_map = [CHR 0xF0, CHR 0x9F, CHR 0x97, CHR 0xBA]"

section \<open>Photo handling\<close>

text \<open>
  A selected file: its name, its declared MIME type, its declared size and the bytes
  a reader gets from it.
\<close>

record input_file =
  file_name :: string
  file_type :: string
  file_size :: nat
  file_content :: "char list"


definition MAX_PHOTO_SIZE :: nat where
  "MAX_PHOTO_SIZE = 10 * 1024 * 1024"

definition SUPPORTED_IMAGE_TYPES :: "string list" where
  "SUPPORTED_IMAGE_TYPES = [''image/jpeg'', ''image/png'', ''image/webp'']"

text \<open>
  The callback of the filter in \<^verbatim>\<open>validatePhotoFiles\<close> returns \<^verbatim>\<open>false\<close> at two places,
  each after a warning of its own; \<open>None\<close> is its \<^verbatim>\<open>return true\<close>.
\<close>

datatype rejection = UnsupportedType | TooLarge

definition photo_check :: "input_file \<Rightarrow> rejection option" where
  "photo_check f =
     (if file_type f \<notin> set SUPPORTED_IMAGE_TYPES then Some UnsupportedType
      else if MAX_PHOTO_SIZE < file_size f then Some TooLarge
      else None)"

definition warn_message :: "host \<Rightarrow> input_file \<Rightarrow> rejection \<Rightarrow> string" where
  "warn_message h f r =
     (case r of
        UnsupportedType \<Rightarrow> ''Unsupported file type: '' @ file_type f @ '' for '' @ file_name f
      | TooLarge \<Rightarrow>
          ''File too large: '' @ file_name f @ '' ('' @ formatBytes h (file_size f) @ '')'')"

text \<open>
  The result of \<^verbatim>\<open>validatePhotoFiles\<close>: the array it returns, the warnings it logs and
  the alert it shows when a file was skipped.
\<close>

record validation =
  validFiles :: "input_file list"
  warnings :: "string list"
  alert :: "string option"

definition validatePhotoFiles :: "host \<Rightarrow> input_file list \<Rightarrow> validation" where
  "validatePhotoFiles h files =
     (let valid = filter (\<lambda>f. photo_check f = None) files
      in \<lparr>validFiles = valid,
          warnings = concat (map (\<lambda>f. case photo_check f of
                                          None \<Rightarrow> []
                                        | Some r \<Rightarrow> [warn_message h f r]) files),
          alert = (if length valid < length files
                   then Some (digits (length files - length valid) @
                              '' file(s) skipped (unsupported type or too large)'')
                   else None)\<rparr>)"


section \<open>Storage information\<close>

record estimate =
  usage :: nat
  quota :: nat

text \<open>
  \<^verbatim>\<open>navigator.storage\<close> may be absent, and so may its member \<^verbatim>\<open>estimate\<close>; when it
  is there, the call resolves with an estimate or rejects (\<open>EstimateError\<close>).
\<close>

record storageManager =
  estimate_call :: "(js_error + estimate) option"

record navigator =
  storage :: "storageManager option"

definition getStorageEstimate :: "navigator \<Rightarrow> js_error + estimate option" where
  "getStorageEstimate nav =
     (case storage nav of
        None \<Rightarrow> Inr None
      | Some sm \<Rightarrow>
          (case estimate_call sm of
             None \<Rightarrow> Inr None
           | Some (Inl err) \<Rightarrow> Inl err
           | Some (Inr est) \<Rightarrow> Inr (Some est)))"

definition estimate_supported :: "navigator \<Rightarrow> bool" where
  "estimate_supported nav =
     (case storage nav of None \<Rightarrow> False | Some sm \<Rightarrow> estimate_call sm \<noteq> None)"

text \<open>
  A JavaScript number is a double: a rational, or one of the three values that are
  not finite. The result of an arithmetic operation is the exact result rounded to
  the nearest double, to the one with the even significand of two that are equally
  near (IEEE 754, binary64): a positive \<open>x\<close> with \<open>2\<^sup>e \<le> x < 2\<^sup>e\<^sup>+\<^sup>1\<close> is rounded to a
  multiple \<open>n * 2\<^sup>e\<^sup>-\<^sup>5\<^sup>2\<close>, below \<open>2\<^sup>-\<^sup>1\<^sup>0\<^sup>2\<^sup>2\<close> to a multiple of \<open>2\<^sup>-\<^sup>1\<^sup>0\<^sup>7\<^sup>4\<close>, and a result
  of \<open>2\<^sup>1\<^sup>0\<^sup>2\<^sup>4\<close> or more (\<open>e\<close> from 1024 on, or \<open>e = 1023\<close> and \<open>n = 2\<^sup>5\<^sup>3\<close>) is infinite.
\<close>

datatype jsnum = Num rat | PosInf | NegInf | NaN

definition pow2 :: "int \<Rightarrow> rat" where
  "pow2 k = (if 0 \<le> k then 2 ^ nat k else 1 / 2 ^ nat (- k))"

text \<open>The exponent \<open>e\<close> of a positive rational: \<open>2\<^sup>e \<le> x < 2\<^sup>e\<^sup>+\<^sup>1\<close>.\<close>

definition expo :: "rat \<Rightarrow> int" where
  "expo x = (if 1 \<le> x then bitlen \<lfloor>x\<rfloor> - 1 else - bitlen (\<lceil>1 / x\<rceil> - 1))"

definition round_even :: "rat \<Rightarrow> int" where
  "round_even x =
     (let n = \<lfloor>x\<rfloor>; d = x - of_int n
      in if d < 1 / 2 then n else if 1 / 2 < d then n + 1 else if even n then n else n + 1)"

definition to_double :: "rat \<Rightarrow> jsnum" where
  "to_double x =
     (if x = 0 then Num 0
      else
        let e = expo \<bar>x\<bar>;
            u = pow2 (max e (- 1022) - 52);
            n = round_even (\<bar>x\<bar> / u)
        in if 1024 \<le> e \<or> (e = 1023 \<and> n = 2 ^ 53) then (if 0 < x then PosInf else NegInf)
           else Num (if 0 < x then of_int n * u else - (of_int n * u)))"

text \<open>
  The numbers of an estimate hold natural numbers; \<open>usage\<close> and \<open>quota\<close> are their
  values. A natural number is the value of a number when a double holds it exactly.
\<close>

definition js_integer :: "nat \<Rightarrow> bool" where
  "js_integer n \<longleftrightarrow> to_double (of_nat n) = Num (of_nat n)"

text \<open>\<^verbatim>\<open>a / b\<close> for two such numbers.\<close>

definition js_div :: "nat \<Rightarrow> nat \<Rightarrow> jsnum" where
  "js_div a b =
     (if b = 0 then (if a = 0 then NaN else PosInf) else to_double (of_nat a / of_nat b))"

text \<open>
  \<^verbatim>\<open>k * x\<close> and \<^verbatim>\<open>x / k\<close> for a constant \<open>k\<close> above zero, \<^verbatim>\<open>100 - x\<close>, and
  \<^verbatim>\<open>Math.round(x)\<close>, which is exact.
\<close>

definition js_times :: "rat \<Rightarrow> jsnum \<Rightarrow> jsnum" where
  "js_times k x =
     (case x of
        Num r \<Rightarrow> to_double (k * r)
      | PosInf \<Rightarrow> PosInf
      | NegInf \<Rightarrow> NegInf
      | NaN \<Rightarrow> NaN)"

definition js_over :: "rat \<Rightarrow> jsnum \<Rightarrow> jsnum" where
  "js_over k x =
     (case x of
        Num r \<Rightarrow> to_double (r / k)
      | PosInf \<Rightarrow> PosInf
      | NegInf \<Rightarrow> NegInf
      | NaN \<Rightarrow> NaN)"

definition js_100_minus :: "jsnum \<Rightarrow> jsnum" where
  "js_100_minus x =
     (case x of
        Num r \<Rightarrow> to_double (100 - r)
      | PosInf \<Rightarrow> NegInf
      | NegInf \<Rightarrow> PosInf
      | NaN \<Rightarrow> NaN)"

definition js_round :: "jsnum \<Rightarrow> jsnum" where
  "js_round x =
     (case x of
        Num r \<Rightarrow> Num (of_int \<lfloor>r + 1 / 2\<rfloor>)
      | PosInf \<Rightarrow> PosInf
      | NegInf \<Rightarrow> NegInf
      | NaN \<Rightarrow> NaN)"

text \<open>
  The decimal that \<^verbatim>\<open>toFixed(f)\<close> writes for a number below \<open>10\<^sup>2\<^sup>1\<close> in absolute value
  (see \<open>toFixed\<close>), which \<^verbatim>\<open>Number\<close> reads back as the nearest double.
\<close>

definition fixed_value :: "nat \<Rightarrow> rat \<Rightarrow> rat" where
  "fixed_value f r =
     (if r < 0 then - (of_int \<lfloor>\<bar>r\<bar> * 10 ^ f + 1 / 2\<rfloor> / 10 ^ f)
      else of_int \<lfloor>\<bar>r\<bar> * 10 ^ f + 1 / 2\<rfloor> / 10 ^ f)"

text \<open>\<^verbatim>\<open>Number(((x) * 100).toFixed(1))\<close>.\<close>

definition percent_of :: "jsnum \<Rightarrow> jsnum" where
  "percent_of x =
     (case js_times 100 x of
        Num r \<Rightarrow> (if 10 ^ 21 \<le> \<bar>r\<bar> then Num r else to_double (fixed_value 1 r))
      | PosInf \<Rightarrow> PosInf
      | NegInf \<Rightarrow> NegInf
      | NaN \<Rightarrow> NaN)"

text \<open>\<^verbatim>\<open>Math.min(p, 100)\<close>.\<close>

definition min_100 :: "jsnum \<Rightarrow> jsnum" where
  "min_100 p =
     (case p of
        Num r \<Rightarrow> Num (min r 100)
      | PosInf \<Rightarrow> Num 100
      | NegInf \<Rightarrow> NegInf
      | NaN \<Rightarrow> NaN)"

text \<open>\<^verbatim>\<open>Math.round(255 * p / 100)\<close> and \<^verbatim>\<open>Math.round(255 * (100 - p) / 100)\<close>.\<close>

definition red_of :: "jsnum \<Rightarrow> jsnum" where
  "red_of p = js_round (js_over 100 (js_times 255 p))"

definition green_of :: "jsnum \<Rightarrow> jsnum" where
  "green_of p = js_round (js_over 100 (js_times 255 (js_100_minus p)))"

text \<open>
  What \<^verbatim>\<open>updateStorageInfo\<close> writes to the page, as the values it puts into the strings:
  the two sizes in MB and the percentage of \<^verbatim>\<open>storageText\<close>, the percentage of the
  width of \<^verbatim>\<open>storageProgress\<close> and the red and green components of both background
  colours. Dividing a number by \<open>1024 * 1024\<close> is exact.
\<close>

record storage_ui =
  used_mb :: string
  quota_mb :: string
  text_percentage :: jsnum
  width_percentage :: jsnum
  red :: jsnum
  green :: jsnum

datatype storage_outcome =
  EstimateUnavailable | EstimateFailed js_error | Displayed storage_ui

definition updateStorageInfo :: "host \<Rightarrow> navigator \<Rightarrow> storage_outcome" where
  "updateStorageInfo h nav =
     (case getStorageEstimate nav of
        Inl err \<Rightarrow> EstimateFailed err
      | Inr None \<Rightarrow> EstimateUnavailable
      | Inr (Some est) \<Rightarrow>
          (let used = toFixed h 2 (of_nat (usage est) / (1024 * 1024));
               quota_s = toFixed h 2 (of_nat (quota est) / (1024 * 1024));
               percentage = percent_of (js_div (usage est) (quota est))
           in Displayed \<lparr>used_mb = used, quota_mb = quota_s,
                          text_percentage = percentage,
                          width_percentage = min_100 percentage,
                          red = red_of percentage,
                          green = green_of percentage\<rparr>))"

section \<open>Entry cards of the list view\<close>








section \<open>Sharing\<close>

definition locationText :: "host \<Rightarrow> location option \<Rightarrow> string" where
  "locationText h lo =
     (case lo of
        Some l \<Rightarrow>
          emoji_pin @ '' Location: '' @ toFixed h 6 (lat l) @ '', '' @ toFixed h 6 (lng l) @ nl @
          emoji_dart @ '' Accuracy: '' @ toFixed h 0 (accuracy l) @ ''m'' @ nl @
          emoji_world_map @ emoji_vs16 @ '' Google Maps: https://maps.google.com/?q='' @
            numToString h (lat l) @ '','' @ numToString h (lng l)
      | None \<Rightarrow> emoji_pin @ '' Location: Not captured'')"

definition photoInfo :: "host \<Rightarrow> photoData list \<Rightarrow> string" where
  "photoInfo h ps =
     (if 0 < length ps
      then emoji_camera_flash @ '' Photos: '' @ digits (length ps) @ '' attached ('' @
           formatBytes h (sum_list (map photo_size ps)) @ '' total)''
      else emoji_camera_flash @ '' Photos: None'')"

definition createShareText :: "host \<Rightarrow> entry \<Rightarrow> string" where
  "createShareText h e =
     trim
      (nl @
       concat (replicate 20 emoji_heavy_rule) @ nl @
       emoji_clipboard @ '' DATA ENTRY REPORT'' @ nl @
       concat (replicate 20 emoji_heavy_rule) @ nl @
       nl @
       emoji_folder @ '' Category: '' @ category e @ nl @
       emoji_check_mark @ '' Status: '' @ status e @ nl @
       nl @
       emoji_memo @ '' Description:'' @ nl @
       (if description e \<noteq> [] then description e else ''No description provided'') @ nl @
       nl @
       locationText h (location e) @ nl @
       nl @
       photoInfo h (photos e) @ nl @
       nl @
       emoji_alarm_clock @ '' Timestamp: '' @ toLocaleString h (timestamp e) @ nl @
       nl @
       concat (replicate 20 emoji_heavy_rule) @ nl @
       ''Generated by Data Collector App'' @ nl @
       ''    '')"


section \<open>Program state\<close>

text \<open>
  What a call of \<^verbatim>\<open>createShareText\<close> could change: the array \<^verbatim>\<open>entries\<close> of
  \<^verbatim>\<open>app.js\<close>, in which \<^verbatim>\<open>shareEntry\<close> finds the record that it passes on by
  reference, and the object store. Functions of the program are computations on this
  state. Reading a property of the record at an index of the array leaves the state
  as it is; \<^verbatim>\<open>entries = ...\<close> assigns the array.
\<close>

record app_state =
  entries :: "entry list"
  db :: store

definition get_prop :: "nat \<Rightarrow> (entry \<Rightarrow> 'a) \<Rightarrow> (app_state, 'a) state" where
  "get_prop i field = do {
     s \<leftarrow> State_Monad.get;
     State_Monad.return (field (entries s ! i))
   }"

definition set_entries :: "entry list \<Rightarrow> (app_state, unit) state" where
  "set_entries xs = State_Monad.update (\<lambda>s. s\<lparr>entries := xs\<rparr>)"

text \<open>
  \<^verbatim>\<open>loadEntriesOnStartup\<close> assigns the listing of the store to \<^verbatim>\<open>entries\<close>, and the
  empty array when the listing fails.
\<close>

definition loadEntriesOnStartup :: "medium \<Rightarrow> (app_state, unit) state" where
  "loadEntriesOnStartup m = do {
     s \<leftarrow> State_Monad.get;
     case getAllFromIndexedDB m (db s) of
       Inr listing \<Rightarrow> set_entries listing
     | Inl err \<Rightarrow> set_entries []
   }"

text \<open>
  \<^verbatim>\<open>createShareText(entry)\<close> on the state, for the record at index \<open>i\<close> of
  \<^verbatim>\<open>entries\<close>: the body reads \<^verbatim>\<open>entry.location\<close> and \<^verbatim>\<open>entry.photos\<close> for the two
  constants, then the other four properties for the template, and returns the
  trimmed text. It has no assignment and calls \<^verbatim>\<open>toFixed\<close>, \<^verbatim>\<open>reduce\<close>,
  \<^verbatim>\<open>toLocaleString\<close> and \<^verbatim>\<open>trim\<close> only.
\<close>

definition createShareText_call :: "host \<Rightarrow> nat \<Rightarrow> (app_state, string) state" where
  "createShareText_call h i = do {
     entry_location \<leftarrow> get_prop i location;
     entry_photos \<leftarrow> get_prop i photos;
     entry_category \<leftarrow> get_prop i category;
     entry_status \<leftarrow> get_prop i status;
     entry_description \<leftarrow> get_prop i description;
     entry_timestamp \<leftarrow> get_prop i timestamp;
     State_Monad.return
       (trim
         (nl @
          concat (replicate 20 emoji_heavy_rule) @ nl @
          emoji_clipboard @ '' DATA ENTRY REPORT'' @ nl @
          concat (replicate 20 emoji_heavy_rule) @ nl @
          nl @
          emoji_folder @ '' Category: '' @ entry_category @ nl @
          emoji_check_mark @ '' Status: '' @ entry_status @ nl @
          nl @
          emoji_memo @ '' Description:'' @ nl @
          (if entry_description \<noteq> [] then entry_description
           else ''No description provided'') @ nl @
          nl @
          locationText h entry_location @ nl @
          nl @
          photoInfo h entry_photos @ nl @
          nl @
          emoji_alarm_clock @ '' Timestamp: '' @ toLocaleString h entry_timestamp @ nl @
          nl @
          concat (replicate 20 emoji_heavy_rule) @ nl @
          ''Generated by Data Collector App'' @ nl @
          ''    ''))
   }"

section \<open>Sample data\<close>

text \<open>
  Two entries saved one millisecond apart: \<^verbatim>\<open>createEntryObject\<close> reads the clock twice,
  for the id and for the timestamp, and for the first entry the millisecond changed in
  between. The third is the first with another description.
\<close>

definition entry_a :: entry where
  "entry_a = \<lparr>entry_id = 1000, category = ''Inspection'', status = ''Open'',
               description = [], location = None, photos = [], timestamp = 1001\<rparr>"

definition entry_b :: entry where
  "entry_b = \<lparr>entry_id = 1001, category = ''Inspection'', status = ''Open'',
               description = [], location = None, photos = [], timestamp = 1001\<rparr>"

definition entry_a_edited :: entry where
  "entry_a_edited = entry_a\<lparr>description := ''changed''\<rparr>"

text \<open>An entry whose description is markup.\<close>

definition entry_markup :: entry where
  "entry_markup = entry_a\<lparr>description := ''<img src=x onerror=alert(1)>''\<rparr>"

text \<open>A host with fixed answers.\<close>

definition sample_host :: host where
  "sample_host =
     \<lparr>numToString = (\<lambda>x. ''0''), toLocaleString = (\<lambda>t. ''1/1/1970, 12:00:01 AM'')\<rparr>"



text \<open>
  Files of a batch, by type and declared size (the validation reads nothing else):
  2 MiB, 11 MiB, a GIF, exactly 10 MiB.
\<close>

definition jpeg_2mib :: input_file where
  "jpeg_2mib = \<lparr>file_name = ''a.jpg'', file_type = ''image/jpeg'', file_size = 2097152,
                 file_content = []\<rparr>"

definition png_11mib :: input_file where
  "png_11mib = \<lparr>file_name = ''b.png'', file_type = ''image/png'', file_size = 11534336,
                 file_content = []\<rparr>"

definition gif_small :: input_file where
  "gif_small = \<lparr>file_name = ''c.gif'', file_type = ''image/gif'', file_size = 10,
                 file_content = []\<rparr>"

definition webp_10mib :: input_file where
  "webp_10mib = \<lparr>file_name = ''d.webp'', file_type = ''image/webp'', file_size = 10485760,
                  file_content = []\<rparr>"

text \<open>A state of the program after the two entries were saved and loaded.\<close>

definition loaded_state :: app_state where
  "loaded_state = \<lparr>entries = [entry_a, entry_b], db = [entry_a, entry_b]\<rparr>"

text \<open>A host whose estimate reports more usage than quota.\<close>

definition over_quota :: navigator where
  "over_quota =
     \<lparr>storage = Some \<lparr>estimate_call = Some (Inr \<lparr>usage = 2, quota = 1\<rparr>)\<rparr>\<rparr>"

section \<open>Properties of the store\<close>

lemma set_store_put: "set (store_put e s) \<subseteq> insert e (set s)"
  by (induction s) auto

lemma store_ok_put: "store_ok s \<Longrightarrow> store_ok (store_put e s)"
proof (induction s)
  case Nil
  then show ?case by (simp add: store_ok_def)
next
  case (Cons x xs)
  have tl_ok: "store_ok (store_put e xs)"
    using Cons by (simp add: store_ok_def)
  show ?case
  proof (cases "entry_id e < entry_id x")
    case True
    then show ?thesis using Cons.prems by (auto simp: store_ok_def)
  next
    case False
    show ?thesis
    proof (cases "entry_id e = entry_id x")
      case True
      then show ?thesis using Cons.prems by (auto simp: store_ok_def)
    next
      case neq: False
      have "\<forall>y \<in> set (store_put e xs). entry_id x < entry_id y"
        using set_store_put [of e xs] Cons.prems False neq
        by (auto simp: store_ok_def)
      then show ?thesis
        using False neq tl_ok by (simp add: store_ok_def)
    qed
  qed
qed

lemma store_ok_delete: "store_ok s \<Longrightarrow> store_ok (store_delete k s)"
  by (simp add: store_ok_def store_delete_def sorted_wrt_filter)

lemma set_sort_insert: "set (sort_insert cmp x ys) = insert x (set ys)"
  by (induction ys) auto

lemma set_array_sort: "set (array_sort cmp xs) = set xs"
  by (induction xs) (simp_all add: array_sort_def set_sort_insert)

lemma length_sort_insert: "length (sort_insert cmp x ys) = Suc (length ys)"
  by (induction ys) auto

lemma length_array_sort: "length (array_sort cmp xs) = length xs"
  by (induction xs) (simp_all add: array_sort_def length_sort_insert)

lemma sort_insert_newer_asc:
  assumes "sorted_wrt newer_then_id_asc ys"
    and "\<forall>y \<in> set ys. entry_id x < entry_id y"
  shows "sorted_wrt newer_then_id_asc (sort_insert by_timestamp_desc x ys)"
  using assms
proof (induction ys)
  case Nil
  then show ?case by simp
next
  case (Cons y ys)
  show ?case
  proof (cases "by_timestamp_desc x y \<le> 0")
    case True
    then have xy: "timestamp y \<le> timestamp x"
      by (simp add: by_timestamp_desc_def)
    have "\<forall>z \<in> set ys. timestamp z \<le> timestamp y"
      using Cons.prems(1) by (auto simp: newer_then_id_asc_def)
    then have "\<forall>z \<in> set (y # ys). newer_then_id_asc x z"
      using xy Cons.prems(2) by (fastforce simp: newer_then_id_asc_def)
    then show ?thesis
      using True Cons.prems(1) by simp
  next
    case False
    then have yx: "newer_then_id_asc y x"
      by (simp add: by_timestamp_desc_def newer_then_id_asc_def)
    have "sorted_wrt newer_then_id_asc (sort_insert by_timestamp_desc x ys)"
      using Cons by simp
    then show ?thesis
      using False yx Cons.prems(1) by (simp add: set_sort_insert)
  qed
qed

lemma array_sort_newer_asc:
  "store_ok s \<Longrightarrow> sorted_wrt newer_then_id_asc (array_sort by_timestamp_desc s)"
proof (induction s)
  case Nil
  then show ?case by (simp add: array_sort_def)
next
  case (Cons x xs)
  have ok: "store_ok xs"
    using Cons.prems by (simp add: store_ok_def)
  have "\<forall>y \<in> set (array_sort by_timestamp_desc xs). entry_id x < entry_id y"
    using Cons.prems by (simp add: store_ok_def set_array_sort)
  then have "sorted_wrt newer_then_id_asc
      (sort_insert by_timestamp_desc x (array_sort by_timestamp_desc xs))"
    using Cons.IH [OF ok] by (rule sort_insert_newer_asc [rotated])
  then show ?case by (simp add: array_sort_def)
qed

lemma store_get_put_same: "store_get (store_put r s) (entry_id r) = Some r"
  by (induction s) (auto simp: store_get_def)

lemma store_get_put_other:
  "k \<noteq> entry_id r \<Longrightarrow> store_get (store_put r s) k = store_get s k"
  by (induction s) (auto simp: store_get_def)

lemma store_get_None_iff: "store_get s k = None \<longleftrightarrow> k \<notin> entry_id ` set s"
  by (auto simp: store_get_def find_None_iff)

lemma store_get_Some_mem: "store_get s k = Some e \<Longrightarrow> e \<in> set s \<and> entry_id e = k"
  by (auto simp: store_get_def find_Some_iff)

lemma length_store_put_present:
  "store_ok s \<Longrightarrow> entry_id r \<in> entry_id ` set s \<Longrightarrow> length (store_put r s) = length s"
proof (induction s)
  case Nil
  then show ?case by simp
next
  case (Cons x xs)
  show ?case
  proof (cases "entry_id r < entry_id x")
    case True
    then have "entry_id r \<notin> entry_id ` set (x # xs)"
      using Cons.prems(1) by (auto simp: store_ok_def)
    then show ?thesis using Cons.prems(2) by blast
  next
    case False
    then show ?thesis using Cons by (auto simp: store_ok_def)
  qed
qed

lemma store_ok_unique:
  "store_ok s \<Longrightarrow> a \<in> set s \<Longrightarrow> b \<in> set s \<Longrightarrow> entry_id a = entry_id b \<Longrightarrow> a = b"
  by (induction s) (auto simp: store_ok_def)

lemma store_delete_absent: "store_get s k = None \<Longrightarrow> store_delete k s = s"
  by (induction s) (auto simp: store_delete_def store_get_def)

lemma store_get_delete_same: "store_get (store_delete k s) k = None"
  by (auto simp: store_get_None_iff store_delete_def)

lemma store_get_delete_other:
  "j \<noteq> k \<Longrightarrow> store_get (store_delete k s) j = store_get s j"
  by (induction s) (auto simp: store_delete_def store_get_def)

lemma set_store_delete_present:
  assumes "store_ok s" and "store_get s k = Some e"
  shows "set (store_delete k s) = set s - {e}"
proof -
  have e: "e \<in> set s" "entry_id e = k"
    using store_get_Some_mem [OF assms(2)] by simp_all
  have "\<And>x. x \<in> set s \<Longrightarrow> entry_id x = k \<longleftrightarrow> x = e"
    using store_ok_unique [OF assms(1)] e by blast
  then show ?thesis
    by (auto simp: store_delete_def)
qed

lemma store_ok_samples: "store_ok [entry_a, entry_b]"
  by (simp add: store_ok_def entry_a_def entry_b_def)

lemma failing_medium_rejects:
  "m \<noteq> Healthy \<Longrightarrow>
     isl (getAllFromIndexedDB m s) \<and>
     isl (fst (saveToIndexedDB m e s)) \<and> snd (saveToIndexedDB m e s) = s \<and>
     isl (fst (deleteFromIndexedDB m k s)) \<and> snd (deleteFromIndexedDB m k s) = s"
  by (cases m) (simp_all add: getAllFromIndexedDB_def saveToIndexedDB_def deleteFromIndexedDB_def)

subsection \<open>Order of the listing\<close>

text \<open>
  C1 (amended). For every state of the store, \<^verbatim>\<open>getAllFromIndexedDB\<close> on a working
  medium resolves with all records of the store, sorted by timestamp descending; two
  records of equal timestamp appear in ascending order of their ids, the key order in
  which the store hands them to the stable sort.
\<close>

theorem getAll_timestamp_desc_id_asc:
  assumes "store_ok s"
  shows "\<exists>xs. getAllFromIndexedDB Healthy s = Inr xs \<and>
           sorted_wrt newer_then_id_asc xs \<and> set xs = set s \<and> length xs = length s"
  using assms
  by (simp add: getAllFromIndexedDB_def store_getAll_def array_sort_newer_asc
      set_array_sort length_array_sort)

theorem getAll_timestamp_desc_id_asc_witness:
  "store_ok [entry_a, entry_b] \<and>
   getAllFromIndexedDB Healthy [entry_a, entry_b] = Inr [entry_a, entry_b] \<and>
   sorted_wrt newer_then_id_asc [entry_a, entry_b]"
proof -
  have listing: "getAllFromIndexedDB Healthy [entry_a, entry_b] = Inr [entry_a, entry_b]"
    by (simp add: getAllFromIndexedDB_def store_getAll_def array_sort_def
        by_timestamp_desc_def entry_a_def entry_b_def)
  obtain xs where "getAllFromIndexedDB Healthy [entry_a, entry_b] = Inr xs"
    and sorted: "sorted_wrt newer_then_id_asc xs"
    using getAll_timestamp_desc_id_asc [OF store_ok_samples] by blast
  then have "xs = [entry_a, entry_b]"
    by (simp add: listing)
  then show ?thesis
    using store_ok_samples listing sorted by simp
qed

text \<open>
  The claim as stated fails: after the two sample entries are saved to the empty
  store, the listing has them in the order of their ids ascending, although their
  timestamps are equal.
\<close>

theorem getAll_ties_not_id_desc:
  "snd (saveToIndexedDB Healthy entry_b (snd (saveToIndexedDB Healthy entry_a []))) =
     [entry_a, entry_b] \<and>
   store_ok [entry_a, entry_b] \<and>
   getAllFromIndexedDB Healthy [entry_a, entry_b] = Inr [entry_a, entry_b] \<and>
   \<not> sorted_wrt newer_then_id_desc [entry_a, entry_b]"
  by (simp add: store_ok_def entry_a_def entry_b_def saveToIndexedDB_def
      getAllFromIndexedDB_def store_getAll_def array_sort_def by_timestamp_desc_def
      newer_then_id_desc_def)

subsection \<open>Saving under an id that is taken\<close>

text \<open>
  C2 (amended). For every record \<open>r\<close> and every state of the store that holds a record
  with the id of \<open>r\<close>, \<^verbatim>\<open>saveToIndexedDB\<close> on a working medium resolves with the id
  and replaces the stored record by \<open>r\<close>; every other record stays as it was and the
  number of records does not change.
\<close>

theorem save_replaces_existing:
  assumes "store_ok s" and "store_get s (entry_id r) \<noteq> None"
  shows "saveToIndexedDB Healthy r s = (Inr (entry_id r), store_put r s) \<and>
         store_get (store_put r s) (entry_id r) = Some r \<and>
         (\<forall>k. k \<noteq> entry_id r \<longrightarrow> store_get (store_put r s) k = store_get s k) \<and>
         length (store_put r s) = length s \<and> store_ok (store_put r s)"
proof -
  have "entry_id r \<in> entry_id ` set s"
    using assms(2) by (simp add: store_get_None_iff)
  then have "length (store_put r s) = length s"
    using assms(1) by (rule length_store_put_present [rotated])
  then show ?thesis
    using assms(1)
    by (simp add: saveToIndexedDB_def store_get_put_same store_get_put_other store_ok_put)
qed

theorem save_replaces_existing_witness:
  "store_ok [entry_a, entry_b] \<and>
   store_get [entry_a, entry_b] (entry_id entry_a_edited) \<noteq> None \<and>
   saveToIndexedDB Healthy entry_a_edited [entry_a, entry_b] =
     (Inr 1000, [entry_a_edited, entry_b]) \<and>
   store_get [entry_a_edited, entry_b] 1000 = Some entry_a_edited \<and>
   store_get [entry_a_edited, entry_b] 1001 = store_get [entry_a, entry_b] 1001"
proof -
  have pr: "store_get [entry_a, entry_b] (entry_id entry_a_edited) \<noteq> None"
    by (simp add: store_get_def entry_a_def entry_a_edited_def)
  have put: "store_put entry_a_edited [entry_a, entry_b] = [entry_a_edited, entry_b]"
    by (simp add: entry_a_def entry_a_edited_def)
  show ?thesis
    using store_ok_samples pr save_replaces_existing [OF store_ok_samples pr]
    by (simp add: put entry_a_def entry_a_edited_def entry_b_def)
qed

text \<open>
  The claim as stated fails: saving the edited entry to a store that holds the entry
  of the same id is not rejected, and the entry stored under the id is no longer the
  previous one.
\<close>

theorem save_existing_id_not_rejected:
  "store_ok [entry_a] \<and>
   store_get [entry_a] (entry_id entry_a_edited) = Some entry_a \<and>
   \<not> isl (fst (saveToIndexedDB Healthy entry_a_edited [entry_a])) \<and>
   store_get (snd (saveToIndexedDB Healthy entry_a_edited [entry_a])) (entry_id entry_a_edited)
     \<noteq> Some entry_a"
  by (simp add: store_ok_def store_get_def saveToIndexedDB_def entry_a_def entry_a_edited_def)

subsection \<open>Deleting\<close>

text \<open>
  C3 (amended). For every id absent from the store, \<^verbatim>\<open>deleteFromIndexedDB\<close> on a
  working medium resolves and leaves the store as it was; for every id present, it
  resolves and removes the record, which holds its photos, and no other record.
\<close>

theorem delete_absent_resolves_present_removed:
  assumes "store_ok s"
  shows "(store_get s k = None \<longrightarrow> deleteFromIndexedDB Healthy k s = (Inr (), s)) \<and>
         (\<forall>e. store_get s k = Some e \<longrightarrow>
            (\<exists>s'. deleteFromIndexedDB Healthy k s = (Inr (), s') \<and>
                  store_get s' k = None \<and> set s' = set s - {e} \<and>
                  (\<forall>j. j \<noteq> k \<longrightarrow> store_get s' j = store_get s j) \<and> store_ok s'))"
  using assms
  by (simp add: deleteFromIndexedDB_def store_delete_absent store_get_delete_same
      store_get_delete_other set_store_delete_present store_ok_delete)

theorem delete_absent_resolves_present_removed_witness:
  "store_ok [entry_a, entry_b] \<and> store_get [entry_a, entry_b] 7 = None \<and>
   deleteFromIndexedDB Healthy 7 [entry_a, entry_b] = (Inr (), [entry_a, entry_b]) \<and>
   store_get [entry_a, entry_b] 1000 = Some entry_a \<and>
   deleteFromIndexedDB Healthy 1000 [entry_a, entry_b] = (Inr (), [entry_b]) \<and>
   store_get [entry_b] 1000 = None"
proof -
  have absent: "store_get [entry_a, entry_b] 7 = None"
    by (simp add: store_get_def entry_a_def entry_b_def)
  have present: "store_get [entry_a, entry_b] 1000 = Some entry_a"
    by (simp add: store_get_def entry_a_def entry_b_def)
  have removed: "deleteFromIndexedDB Healthy 1000 [entry_a, entry_b] = (Inr (), [entry_b])"
    by (simp add: deleteFromIndexedDB_def store_delete_def entry_a_def entry_b_def)
  have kept: "deleteFromIndexedDB Healthy 7 [entry_a, entry_b] = (Inr (), [entry_a, entry_b])"
    using absent delete_absent_resolves_present_removed [OF store_ok_samples, of 7]
    by (simp only: simp_thms)
  obtain s' where "deleteFromIndexedDB Healthy 1000 [entry_a, entry_b] = (Inr (), s')"
    and gone: "store_get s' 1000 = None"
    using present delete_absent_resolves_present_removed [OF store_ok_samples, of 1000]
    by blast
  then have "s' = [entry_b]"
    by (simp add: removed)
  then show ?thesis
    using store_ok_samples absent present kept removed gone by (simp only: simp_thms)
qed

text \<open>
  The claim as stated fails: deleting an id that the store does not hold is not
  rejected.
\<close>

theorem delete_absent_not_rejected:
  "store_get [entry_a] 7 = None \<and> \<not> isl (fst (deleteFromIndexedDB Healthy 7 [entry_a]))"
  by (simp add: store_get_def deleteFromIndexedDB_def entry_a_def)

section \<open>Properties of the photo handling\<close>

subsection \<open>Validation\<close>

text \<open>
  C6. \<^verbatim>\<open>validatePhotoFiles\<close> accepts a file exactly when its declared type is one of
  \<^verbatim>\<open>image/jpeg\<close>, \<^verbatim>\<open>image/png\<close>, \<^verbatim>\<open>image/webp\<close> and its size is at most
  \<open>10 * 1024 * 1024\<close> bytes. A type outside the list is rejected as unsupported; the
  size is looked at after the type, and a size above the limit is rejected as too
  large. The verdict on a file, and the warning logged for it, do not depend on the
  files before and after it in the batch.
\<close>

theorem validatePhotoFiles_verdicts:
  "photo_check f =
     (if file_type f \<notin> {''image/jpeg'', ''image/png'', ''image/webp''} then Some UnsupportedType
      else if 10 * 1024 * 1024 < file_size f then Some TooLarge
      else None) \<and>
   validFiles (validatePhotoFiles h (xs @ f # ys)) =
     validFiles (validatePhotoFiles h xs) @
     (if file_type f \<in> {''image/jpeg'', ''image/png'', ''image/webp''} \<and>
         file_size f \<le> 10 * 1024 * 1024 then [f] else []) @
     validFiles (validatePhotoFiles h ys) \<and>
   warnings (validatePhotoFiles h (xs @ f # ys)) =
     warnings (validatePhotoFiles h xs) @
     (case photo_check f of None \<Rightarrow> [] | Some r \<Rightarrow> [warn_message h f r]) @
     warnings (validatePhotoFiles h ys)"
  by (simp add: validatePhotoFiles_def Let_def photo_check_def SUPPORTED_IMAGE_TYPES_def
      MAX_PHOTO_SIZE_def)

lemma sample_checks:
  "photo_check jpeg_2mib = None" "photo_check png_11mib = Some TooLarge"
  "photo_check gif_small = Some UnsupportedType" "photo_check webp_10mib = None"
  by (simp_all add: photo_check_def SUPPORTED_IMAGE_TYPES_def MAX_PHOTO_SIZE_def
      jpeg_2mib_def png_11mib_def gif_small_def webp_10mib_def)

theorem validatePhotoFiles_verdicts_witness:
  "photo_check png_11mib = Some TooLarge \<and>
   photo_check gif_small = Some UnsupportedType \<and>
   validFiles (validatePhotoFiles sample_host [jpeg_2mib, png_11mib, gif_small, webp_10mib]) =
     [jpeg_2mib, webp_10mib] \<and>
   alert (validatePhotoFiles sample_host [jpeg_2mib, png_11mib, gif_small, webp_10mib]) =
     Some ''2 file(s) skipped (unsupported type or too large)''"
proof -
  have one: "validFiles (validatePhotoFiles sample_host ([jpeg_2mib] @ png_11mib # [gif_small, webp_10mib])) =
      validFiles (validatePhotoFiles sample_host [jpeg_2mib]) @ [] @
      validFiles (validatePhotoFiles sample_host [gif_small, webp_10mib])"
    using validatePhotoFiles_verdicts [of png_11mib sample_host "[jpeg_2mib]" "[gif_small, webp_10mib]"]
    by (simp add: png_11mib_def)
  have rest: "validFiles (validatePhotoFiles sample_host [jpeg_2mib]) = [jpeg_2mib]"
    "validFiles (validatePhotoFiles sample_host [gif_small, webp_10mib]) = [webp_10mib]"
    by (simp_all add: validatePhotoFiles_def sample_checks)
  have valid: "validFiles (validatePhotoFiles sample_host [jpeg_2mib, png_11mib, gif_small, webp_10mib]) =
      [jpeg_2mib, webp_10mib]"
    using one rest by simp
  have two: "digits (Suc (Suc 0)) = ''2''"
    by code_simp
  have "alert (validatePhotoFiles sample_host [jpeg_2mib, png_11mib, gif_small, webp_10mib]) =
      Some ''2 file(s) skipped (unsupported type or too large)''"
    by (simp add: validatePhotoFiles_def sample_checks two)
  then show ?thesis
    using valid by (simp add: sample_checks)
qed

subsection \<open>Conversion\<close>





section \<open>Properties of the storage information\<close>

subsection \<open>No estimate\<close>

text \<open>
  C9. When the host has no \<^verbatim>\<open>navigator.storage\<close>, or one without \<^verbatim>\<open>estimate\<close>,
  \<^verbatim>\<open>getStorageEstimate\<close> resolves with \<^verbatim>\<open>null\<close>: it does not reject, and the value is
  not the estimate of zero usage and zero quota. \<^verbatim>\<open>updateStorageInfo\<close> then leaves the
  page as it is.
\<close>

theorem getStorageEstimate_unavailable:
  "\<not> estimate_supported nav \<Longrightarrow>
     getStorageEstimate nav = Inr None \<and>
     getStorageEstimate nav \<noteq> Inr (Some \<lparr>usage = 0, quota = 0\<rparr>) \<and>
     \<not> isl (getStorageEstimate nav) \<and>
     updateStorageInfo h nav = EstimateUnavailable"
  by (auto simp: estimate_supported_def getStorageEstimate_def updateStorageInfo_def
      split: option.splits)

theorem getStorageEstimate_unavailable_witness:
  "\<not> estimate_supported \<lparr>storage = None\<rparr> \<and>
   getStorageEstimate \<lparr>storage = None\<rparr> = Inr None \<and>
   \<not> estimate_supported \<lparr>storage = Some \<lparr>estimate_call = None\<rparr>\<rparr> \<and>
   getStorageEstimate \<lparr>storage = Some \<lparr>estimate_call = None\<rparr>\<rparr> = Inr None"
proof -
  have a: "\<not> estimate_supported \<lparr>storage = None\<rparr>"
    by (simp add: estimate_supported_def)
  have b: "\<not> estimate_supported \<lparr>storage = Some \<lparr>estimate_call = None\<rparr>\<rparr>"
    by (simp add: estimate_supported_def)
  show ?thesis
    using a b getStorageEstimate_unavailable [OF a] getStorageEstimate_unavailable [OF b]
    by simp
qed

subsection \<open>Rounding to a double\<close>

lemma pow2_pos: "0 < pow2 k"
  by (simp add: pow2_def)

text \<open>The exponent brackets its argument.\<close>

lemma expo_bounds:
  assumes "0 < x"
  shows "pow2 (expo x) \<le> x \<and> x < pow2 (expo x + 1)"
proof (cases "1 \<le> x")
  case True
  define n where "n = \<lfloor>x\<rfloor>"
  have n: "0 < n" using True by (simp add: n_def)
  have b: "2 ^ nat (bitlen n - 1) \<le> n" "n < 2 ^ nat (bitlen n)"
    using bitlen_bounds [OF n] by simp_all
  have b1: "1 \<le> bitlen n" using n by (simp add: bitlen_alt_def)
  have e: "expo x = bitlen n - 1" using True by (simp add: expo_def n_def)
  have "(of_int (2 ^ nat (bitlen n - 1)) :: rat) \<le> of_int n"
    using b(1) by (simp only: of_int_le_iff)
  also have "of_int n \<le> x" by (simp add: n_def)
  finally have lower: "(2 :: rat) ^ nat (bitlen n - 1) \<le> x" by simp
  have "n + 1 \<le> 2 ^ nat (bitlen n)" using b(2) by simp
  then have "(of_int (n + 1) :: rat) \<le> of_int (2 ^ nat (bitlen n))"
    by (simp only: of_int_le_iff)
  moreover have "x < of_int (n + 1)" using floor_correct [of x] by (simp add: n_def)
  ultimately have upper: "x < (2 :: rat) ^ nat (bitlen n)" by simp
  show ?thesis
    using lower upper b1 by (simp add: e pow2_def)
next
  case False
  define m where "m = \<lceil>1 / x\<rceil>"
  define b where "b = bitlen (m - 1)"
  have inv: "1 < 1 / x" using False assms by simp
  then have m2: "2 \<le> m" by (simp add: m_def le_ceiling_iff)
  then have m1: "0 < m - 1" by simp
  have bb: "2 ^ nat (b - 1) \<le> m - 1" "m - 1 < 2 ^ nat b"
    using bitlen_bounds [OF m1] by (simp_all add: b_def)
  have b1: "1 \<le> b" using m1 by (simp add: b_def bitlen_alt_def)
  have e: "expo x = - b" using False by (simp add: expo_def m_def b_def)
  have "of_int (m - 1) < 1 / x"
    unfolding m_def by (metis ceiling_less_iff diff_add_cancel less_add_one of_int_diff of_int_1
        less_ceiling_iff zle_diff1_eq order_refl not_le)
  moreover have "(of_int (2 ^ nat (b - 1)) :: rat) \<le> of_int (m - 1)"
    using bb(1) by (simp only: of_int_le_iff)
  ultimately have low: "(2 :: rat) ^ nat (b - 1) < 1 / x" by simp
  have "m \<le> 2 ^ nat b" using bb(2) by simp
  then have "(of_int m :: rat) \<le> of_int (2 ^ nat b)" by (simp only: of_int_le_iff)
  then have "(of_int m :: rat) \<le> 2 ^ nat b" by (simp only: of_int_power of_int_numeral)
  moreover have "1 / x \<le> of_int m" by (simp add: m_def)
  ultimately have high: "1 / x \<le> (2 :: rat) ^ nat b" by (rule order_trans [rotated])
  have lower: "1 / 2 ^ nat b \<le> x"
    using high assms by (simp add: field_simps)
  have upper: "x < 1 / 2 ^ nat (b - 1)"
    using low assms by (simp add: field_simps)
  show ?thesis
  proof (cases "b = 1")
    case True
    then show ?thesis using lower upper by (simp add: e pow2_def)
  next
    case False
    then have "1 < b" using b1 by simp
    then have "nat (- (- b + 1)) = nat (b - 1)" by simp
    then show ?thesis using lower upper \<open>1 < b\<close> by (simp add: e pow2_def)
  qed
qed

lemma round_even_nonneg: "0 \<le> x \<Longrightarrow> 0 \<le> round_even x"
  by (simp add: round_even_def Let_def)

lemma round_even_le:
  assumes "x \<le> of_int N"
  shows "round_even x \<le> N"
proof (cases "x = of_int N")
  case True
  then show ?thesis by (simp add: round_even_def)
next
  case False
  then have "x < of_int N" using assms by simp
  then have "\<lfloor>x\<rfloor> < N" by (simp add: floor_less_iff)
  then have "\<lfloor>x\<rfloor> + 1 \<le> N" by simp
  then show ?thesis by (simp add: round_even_def Let_def)
qed

lemma expo_le_6:
  assumes "0 < x" and "x \<le> 100"
  shows "expo x \<le> 6"
proof (cases "1 \<le> x")
  case True
  have "\<lfloor>x\<rfloor> \<le> 100" using assms(2) by (simp add: floor_le_iff)
  then have "\<lfloor>x\<rfloor> < 2 ^ nat 7" by simp
  then have "bitlen \<lfloor>x\<rfloor> \<le> 7" by (simp add: bitlen_le_iff_power)
  then show ?thesis using True by (simp add: expo_def)
next
  case False
  have "0 \<le> bitlen (\<lceil>1 / x\<rceil> - 1)" by (rule bitlen_nonneg)
  then show ?thesis using False by (simp add: expo_def)
qed

text \<open>Rounding keeps the sign, and it does not pass a natural number up to 100.\<close>

lemma to_double_nonneg:
  assumes "0 \<le> x"
  shows "to_double x = PosInf \<or> (\<exists>y. to_double x = Num y \<and> 0 \<le> y)"
proof (cases "x = 0")
  case True
  then show ?thesis by (simp add: to_double_def)
next
  case False
  then have pos: "0 < x" using assms by simp
  define u where "u = pow2 (max (expo \<bar>x\<bar>) (- 1022) - 52)"
  define y where "y = (of_int (round_even (\<bar>x\<bar> / u)) :: rat) * u"
  have u: "0 < u" by (simp add: u_def pow2_pos)
  then have "0 \<le> \<bar>x\<bar> / u" by simp
  then have "0 \<le> round_even (\<bar>x\<bar> / u)" by (rule round_even_nonneg)
  then have y: "0 \<le> y" using u by (simp add: y_def)
  have "to_double x = PosInf \<or> to_double x = Num y"
    using pos False by (simp add: to_double_def Let_def u_def y_def)
  then show ?thesis using y by blast
qed

lemma to_double_bounded:
  assumes "0 \<le> x" and "x \<le> of_nat c" and "c \<le> 100"
  shows "\<exists>y. to_double x = Num y \<and> 0 \<le> y \<and> y \<le> of_nat c"
proof (cases "x = 0")
  case True
  then show ?thesis by (simp add: to_double_def)
next
  case False
  then have pos: "0 < x" using assms(1) by simp
  have x100: "x \<le> 100"
  proof -
    have "(of_nat c :: rat) \<le> of_nat 100" using assms(3) by (simp only: of_nat_le_iff)
    then show ?thesis using assms(2) by simp
  qed
  define e where "e = max (expo \<bar>x\<bar>) (- 1022) - 52"
  define k where "k = nat (- e)"
  define u where "u = pow2 e"
  define y where "y = of_int (round_even (\<bar>x\<bar> / u)) * u"
  have expo: "expo \<bar>x\<bar> \<le> 6" using pos x100 by (simp add: expo_le_6)
  then have e: "e < 0" by (simp add: e_def)
  then have u_eq: "u = 1 / 2 ^ k" by (simp add: u_def pow2_def k_def)
  have u: "0 < u" by (simp add: u_def pow2_pos)
  have quot: "\<bar>x\<bar> / u = x * 2 ^ k" using pos by (simp add: u_eq)
  have "x * 2 ^ k \<le> of_nat c * 2 ^ k" using assms(2) by simp
  also have "... = of_int (int c * 2 ^ k)" by simp
  finally have "round_even (x * 2 ^ k) \<le> int c * 2 ^ k" by (rule round_even_le)
  then have "(of_int (round_even (x * 2 ^ k)) :: rat) \<le> of_int (int c * 2 ^ k)"
    by (simp only: of_int_le_iff)
  then have scaled: "of_int (round_even (x * 2 ^ k)) * u \<le> of_int (int c * 2 ^ k) * u"
    using u by (simp only: mult_le_cancel_right_pos)
  have undo: "of_int (int c * 2 ^ k) * u = (of_nat c :: rat)" by (simp add: u_eq)
  have le: "y \<le> of_nat c"
    unfolding y_def quot using scaled by (simp only: undo)
  have "0 \<le> \<bar>x\<bar> / u" using u by simp
  then have "0 \<le> round_even (\<bar>x\<bar> / u)" by (rule round_even_nonneg)
  then have ge: "0 \<le> y" using u by (simp add: y_def)
  have small: "\<not> (1024 \<le> expo \<bar>x\<bar> \<or>
      (expo \<bar>x\<bar> = 1023 \<and> round_even (\<bar>x\<bar> / u) = 2 ^ 53))"
    using expo by linarith
  have "to_double x = Num y"
    unfolding to_double_def Let_def y_def u_def e_def
    using small [unfolded u_def e_def] pos False by (simp only: if_False if_True)
  then show ?thesis using le ge by blast
qed

subsection \<open>The percentage\<close>

lemma fixed_value_nonneg: "0 \<le> r \<Longrightarrow> 0 \<le> fixed_value f r"
  by (simp add: fixed_value_def)

lemma fixed_value_le_100:
  assumes "0 \<le> r" and "r \<le> 100"
  shows "fixed_value 1 r \<le> 100"
proof -
  have "r * 10 + 1 / 2 < 1001" using assms(2) by simp
  then have "\<lfloor>r * 10 + 1 / 2\<rfloor> < 1001" by (simp add: floor_less_iff)
  then have "\<lfloor>r * 10 + 1 / 2\<rfloor> \<le> 1000" by simp
  then have "(of_int \<lfloor>r * 10 + 1 / 2\<rfloor> :: rat) \<le> of_int 1000"
    by (simp only: of_int_le_iff)
  then have "(of_int \<lfloor>r * 10 + 1 / 2\<rfloor> :: rat) / 10 \<le> 100" by simp
  then show ?thesis using assms(1) by (simp add: fixed_value_def)
qed

lemma js_div_nonneg:
  "0 < b \<Longrightarrow> js_div a b = PosInf \<or> (\<exists>r. js_div a b = Num r \<and> 0 \<le> r)"
  using to_double_nonneg [of "of_nat a / of_nat b"] by (simp add: js_div_def)

lemma js_div_le_1:
  assumes "0 < b" and "a \<le> b"
  shows "\<exists>r. js_div a b = Num r \<and> 0 \<le> r \<and> r \<le> 1"
proof -
  have le: "(of_nat a :: rat) / of_nat b \<le> of_nat 1" using assms by simp
  have ge: "0 \<le> (of_nat a :: rat) / of_nat b" by simp
  have "\<exists>y. to_double (of_nat a / of_nat b) = Num y \<and> 0 \<le> y \<and> y \<le> of_nat 1"
    using ge le by (rule to_double_bounded) simp
  then show ?thesis using assms(1) by (simp add: js_div_def)
qed

lemma percent_of_nonneg:
  assumes "x = PosInf \<or> (\<exists>r. x = Num r \<and> 0 \<le> r)"
  shows "percent_of x = PosInf \<or> (\<exists>p. percent_of x = Num p \<and> 0 \<le> p)"
proof (cases "x = PosInf")
  case True
  then show ?thesis by (simp add: percent_of_def js_times_def)
next
  case False
  then obtain r where r: "x = Num r" "0 \<le> r" using assms by blast
  have "0 \<le> 100 * r" using r(2) by simp
  then consider "to_double (100 * r) = PosInf"
    | y where "to_double (100 * r) = Num y" "0 \<le> y"
    using to_double_nonneg by blast
  then show ?thesis
  proof cases
    case 1
    then show ?thesis by (simp add: percent_of_def js_times_def r(1))
  next
    case 2
    show ?thesis
    proof (cases "10 ^ 21 \<le> \<bar>y\<bar>")
      case True
      then show ?thesis using 2 by (simp add: percent_of_def js_times_def r(1))
    next
      case False
      have "0 \<le> fixed_value 1 y" using 2(2) by (rule fixed_value_nonneg)
      then have "to_double (fixed_value 1 y) = PosInf \<or>
          (\<exists>p. to_double (fixed_value 1 y) = Num p \<and> 0 \<le> p)"
        by (rule to_double_nonneg)
      then show ?thesis using 2 False by (simp add: percent_of_def js_times_def r(1))
    qed
  qed
qed

lemma percent_of_le_100:
  assumes "0 \<le> r" and "r \<le> 1"
  shows "\<exists>p. percent_of (Num r) = Num p \<and> 0 \<le> p \<and> p \<le> 100"
proof -
  have "0 \<le> 100 * r" "100 * r \<le> of_nat 100" using assms by simp_all
  then obtain y where y: "to_double (100 * r) = Num y" "0 \<le> y" "y \<le> of_nat 100"
    using to_double_bounded [of "100 * r" 100] by auto
  then have y100: "y \<le> 100" by simp
  then have small: "\<not> 10 ^ 21 \<le> \<bar>y\<bar>" using y(2) by simp
  have "0 \<le> fixed_value 1 y" using y(2) by (rule fixed_value_nonneg)
  moreover have "fixed_value 1 y \<le> of_nat 100"
    using fixed_value_le_100 [OF y(2) y100] by simp
  ultimately obtain p where "to_double (fixed_value 1 y) = Num p" "0 \<le> p" "p \<le> of_nat 100"
    using to_double_bounded [of "fixed_value 1 y" 100] by auto
  then show ?thesis
    using y(1) small by (simp add: percent_of_def js_times_def)
qed

text \<open>
  The percentage follows the doubles: for a usage of 24117248 and a quota of 83886080
  the quotient is the double below 0.2875, its product with 100 the double below
  28.75, and the percentage is the double of 28.7.
\<close>

lemma quotient_below_tie:
  "js_div 24117248 83886080 = Num (2589569785738035 / 2 ^ 53)"
proof -
  have "js_div 24117248 83886080 = to_double (23 / 80)"
    by (simp add: js_div_def)
  also have "... = Num (2589569785738035 / 2 ^ 53)"
    by code_simp
  finally show ?thesis .
qed

lemma percentage_below_tie:
  "percent_of (js_div 24117248 83886080) = to_double (287 / 10)"
proof -
  have product: "js_times 100 (Num (2589569785738035 / 2 ^ 53)) =
      Num (8092405580431359 / 2 ^ 48)"
    by code_simp
  have small: "\<not> 10 ^ 21 \<le> \<bar>8092405580431359 / 2 ^ 48 :: rat\<bar>"
    by simp
  have written: "fixed_value 1 (8092405580431359 / 2 ^ 48) = 287 / 10"
    by code_simp
  show ?thesis
    by (simp only: quotient_below_tie percent_of_def product jsnum.case small if_False written)
qed

lemma js_integer_samples: "js_integer 2" "js_integer 1" "js_integer (Suc 0)"
  unfolding js_integer_def of_nat_numeral of_nat_1 of_nat_Suc of_nat_0 by code_simp+

lemma over_quota_estimate:
  "getStorageEstimate over_quota = Inr (Some \<lparr>usage = 2, quota = 1\<rparr>)"
  by (simp add: over_quota_def getStorageEstimate_def)

lemma over_quota_display:
  "updateStorageInfo sample_host over_quota =
     Displayed \<lparr>used_mb = ''0.00'', quota_mb = ''0.00'', text_percentage = Num 200,
                width_percentage = Num 100, red = Num 510, green = Num (- 255)\<rparr>"
  by code_simp

text \<open>
  C7 (amended). For every storage estimate with a quota above zero,
  \<^verbatim>\<open>updateStorageInfo\<close> clamps the percentage to the interval from 0 to 100 where it
  sets the width of the progress bar, also when the usage reported exceeds the quota.
  The percentage it writes into the text is the one it computed, not clamped: it is
  not negative, and it is at most 100 when the usage does not exceed the quota.
\<close>

theorem storage_width_clamped:
  assumes "0 < quota est" and "js_integer (usage est)" and "js_integer (quota est)"
    and "getStorageEstimate nav = Inr (Some est)"
  shows "\<exists>ui w. updateStorageInfo h nav = Displayed ui \<and>
           text_percentage ui = percent_of (js_div (usage est) (quota est)) \<and>
           width_percentage ui = min_100 (text_percentage ui) \<and>
           width_percentage ui = Num w \<and> 0 \<le> w \<and> w \<le> 100 \<and>
           (text_percentage ui = PosInf \<or> (\<exists>p. text_percentage ui = Num p \<and> 0 \<le> p)) \<and>
           (usage est \<le> quota est \<longrightarrow> (\<exists>p. text_percentage ui = Num p \<and> p \<le> 100))"
proof -
  let ?p = "percent_of (js_div (usage est) (quota est))"
  have shown: "updateStorageInfo h nav =
      Displayed \<lparr>used_mb = toFixed h 2 (of_nat (usage est) / (1024 * 1024)),
                 quota_mb = toFixed h 2 (of_nat (quota est) / (1024 * 1024)),
                 text_percentage = ?p, width_percentage = min_100 ?p,
                 red = red_of ?p, green = green_of ?p\<rparr>"
    using assms(4) by (simp add: updateStorageInfo_def Let_def)
  have sign: "?p = PosInf \<or> (\<exists>p. ?p = Num p \<and> 0 \<le> p)"
    using js_div_nonneg [OF assms(1)] by (rule percent_of_nonneg)
  have width: "\<exists>w. min_100 ?p = Num w \<and> 0 \<le> w \<and> w \<le> 100"
    using sign by (auto simp: min_100_def)
  have within: "usage est \<le> quota est \<Longrightarrow> \<exists>p. ?p = Num p \<and> p \<le> 100"
  proof -
    assume "usage est \<le> quota est"
    then obtain r where "js_div (usage est) (quota est) = Num r" "0 \<le> r" "r \<le> 1"
      using js_div_le_1 [OF assms(1)] by blast
    then show ?thesis
      using percent_of_le_100 [of r] by auto
  qed
  show ?thesis
    using width sign within by (auto simp: shown)
qed

theorem storage_width_clamped_witness:
  "0 < quota \<lparr>usage = 2, quota = 1\<rparr> \<and> js_integer 2 \<and> js_integer 1 \<and>
   getStorageEstimate over_quota = Inr (Some \<lparr>usage = 2, quota = 1\<rparr>) \<and>
   updateStorageInfo sample_host over_quota =
     Displayed \<lparr>used_mb = ''0.00'', quota_mb = ''0.00'', text_percentage = Num 200,
                width_percentage = min_100 (Num 200), red = Num 510, green = Num (- 255)\<rparr>"
proof -
  have q: "0 < quota \<lparr>usage = 2, quota = 1\<rparr>" by simp
  have u: "js_integer (usage \<lparr>usage = 2, quota = 1\<rparr>)"
    "js_integer (quota \<lparr>usage = 2, quota = 1\<rparr>)"
    by (simp_all add: js_integer_samples)
  obtain ui where ui: "updateStorageInfo sample_host over_quota = Displayed ui"
    "width_percentage ui = min_100 (text_percentage ui)"
    using storage_width_clamped [OF q u over_quota_estimate, of sample_host] by blast
  have "text_percentage ui = Num 200"
    using ui(1) by (auto simp: over_quota_display)
  then have "width_percentage ui = min_100 (Num 200)" using ui(2) by simp
  then show ?thesis
    using q js_integer_samples over_quota_estimate ui(1) by (auto simp: over_quota_display)
qed

text \<open>
  The claim as stated fails: for a usage of twice the quota, the percentage of the
  text is 200 and the colour components are 510 and -255; only the width is 100.
\<close>

theorem storage_percentage_not_clamped:
  "0 < quota \<lparr>usage = 2, quota = 1\<rparr> \<and> js_integer 2 \<and> js_integer 1 \<and>
   getStorageEstimate over_quota = Inr (Some \<lparr>usage = 2, quota = 1\<rparr>) \<and>
   updateStorageInfo sample_host over_quota =
     Displayed \<lparr>used_mb = ''0.00'', quota_mb = ''0.00'', text_percentage = Num 200,
                width_percentage = Num 100, red = Num 510, green = Num (- 255)\<rparr> \<and>
   \<not> (200 :: rat) \<le> 100"
  by (simp add: over_quota_estimate over_quota_display js_integer_samples)

section \<open>Properties of the share text\<close>

lemma trim_between:
  assumes l: "\<And>c. c \<in> set l \<Longrightarrow> js_space c"
    and r: "\<And>c. c \<in> set r \<Longrightarrow> js_space c"
    and m: "m \<noteq> []" "\<not> js_space (hd m)" "\<not> js_space (last m)"
  shows "trim (l @ m @ r) = m"
proof -
  have front: "dropWhile js_space (l @ m @ r) = m @ r"
  proof -
    have "dropWhile js_space (l @ m @ r) = dropWhile js_space (m @ r)"
      by (rule dropWhile_append2) (simp add: l)
    also have "... = m @ r"
      using m by (cases m) simp_all
    finally show ?thesis .
  qed
  have rear: "dropWhile js_space (rev r @ rev m) = rev m"
  proof -
    have "dropWhile js_space (rev r @ rev m) = dropWhile js_space (rev m)"
      by (rule dropWhile_append2) (simp add: r)
    also have "... = rev m"
      using m by (cases m rule: rev_cases) simp_all
    finally show ?thesis .
  qed
  show ?thesis
    by (simp add: trim_def front rear)
qed

lemma rule_Cons:
  "concat (replicate 20 emoji_heavy_rule) =
     CHR 0xE2 # tl (concat (replicate 20 emoji_heavy_rule))"
  by (simp add: emoji_heavy_rule_def numeral_eq_Suc)

lemma count_list_concat_replicate:
  "count_list (concat (replicate n xs)) c = n * count_list xs c"
  by (induction n) simp_all

lemma share_text_unfolded:
  "createShareText h e =
     concat (replicate 20 emoji_heavy_rule) @ nl @
     emoji_clipboard @ '' DATA ENTRY REPORT'' @ nl @
     concat (replicate 20 emoji_heavy_rule) @ nl @
     nl @
     emoji_folder @ '' Category: '' @ category e @ nl @
     emoji_check_mark @ '' Status: '' @ status e @ nl @
     nl @
     emoji_memo @ '' Description:'' @ nl @
     (if description e \<noteq> [] then description e else ''No description provided'') @ nl @
     nl @
     locationText h (location e) @ nl @
     nl @
     photoInfo h (photos e) @ nl @
     nl @
     emoji_alarm_clock @ '' Timestamp: '' @ toLocaleString h (timestamp e) @ nl @
     nl @
     concat (replicate 20 emoji_heavy_rule) @ nl @
     ''Generated by Data Collector App''"
  (is "_ = ?m")
proof -
  have shape: "createShareText h e = trim (nl @ ?m @ (nl @ ''    ''))"
    by (simp add: createShareText_def)
  have ne: "?m \<noteq> []" by simp
  have "hd ?m = CHR 0xE2"
    by (subst rule_Cons) simp
  then have first: "\<not> js_space (hd ?m)"
    by (simp add: js_space_def)
  have "last ?m = CHR ''p''"
    by simp
  then have final: "\<not> js_space (last ?m)"
    by (simp add: js_space_def)
  have "trim (nl @ ?m @ (nl @ ''    '')) = ?m"
    by (rule trim_between [OF _ _ ne first final]) (auto simp: nl_def js_space_def)
  then show ?thesis
    using shape by simp
qed

lemma description_in_share_text:
  assumes "description e \<noteq> []"
  shows "sublist (description e) (createShareText h e)"
proof -
  have "createShareText h e =
     (concat (replicate 20 emoji_heavy_rule) @ nl @
      emoji_clipboard @ '' DATA ENTRY REPORT'' @ nl @
      concat (replicate 20 emoji_heavy_rule) @ nl @
      nl @
      emoji_folder @ '' Category: '' @ category e @ nl @
      emoji_check_mark @ '' Status: '' @ status e @ nl @
      nl @
      emoji_memo @ '' Description:'' @ nl) @
     description e @
     (nl @
      nl @
      locationText h (location e) @ nl @
      nl @
      photoInfo h (photos e) @ nl @
      nl @
      emoji_alarm_clock @ '' Timestamp: '' @ toLocaleString h (timestamp e) @ nl @
      nl @
      concat (replicate 20 emoji_heavy_rule) @ nl @
      ''Generated by Data Collector App'')"
    using assms by (simp add: share_text_unfolded)
  then show ?thesis
    by (simp only: sublist_appendI)
qed

lemma category_in_share_text: "sublist (category e) (createShareText h e)"
proof -
  have "createShareText h e =
     (concat (replicate 20 emoji_heavy_rule) @ nl @
      emoji_clipboard @ '' DATA ENTRY REPORT'' @ nl @
      concat (replicate 20 emoji_heavy_rule) @ nl @
      nl @
      emoji_folder @ '' Category: '') @
     category e @
     (nl @
      emoji_check_mark @ '' Status: '' @ status e @ nl @
      nl @
      emoji_memo @ '' Description:'' @ nl @
      (if description e \<noteq> [] then description e else ''No description provided'') @ nl @
      nl @
      locationText h (location e) @ nl @
      nl @
      photoInfo h (photos e) @ nl @
      nl @
      emoji_alarm_clock @ '' Timestamp: '' @ toLocaleString h (timestamp e) @ nl @
      nl @
      concat (replicate 20 emoji_heavy_rule) @ nl @
      ''Generated by Data Collector App'')"
    by (simp add: share_text_unfolded)
  then show ?thesis
    by (simp only: sublist_appendI)
qed

lemma status_in_share_text: "sublist (status e) (createShareText h e)"
proof -
  have "createShareText h e =
     (concat (replicate 20 emoji_heavy_rule) @ nl @
      emoji_clipboard @ '' DATA ENTRY REPORT'' @ nl @
      concat (replicate 20 emoji_heavy_rule) @ nl @
      nl @
      emoji_folder @ '' Category: '' @ category e @ nl @
      emoji_check_mark @ '' Status: '') @
     status e @
     (nl @
      nl @
      emoji_memo @ '' Description:'' @ nl @
      (if description e \<noteq> [] then description e else ''No description provided'') @ nl @
      nl @
      locationText h (location e) @ nl @
      nl @
      photoInfo h (photos e) @ nl @
      nl @
      emoji_alarm_clock @ '' Timestamp: '' @ toLocaleString h (timestamp e) @ nl @
      nl @
      concat (replicate 20 emoji_heavy_rule) @ nl @
      ''Generated by Data Collector App'')"
    by (simp add: share_text_unfolded)
  then show ?thesis
    by (simp only: sublist_appendI)
qed

text \<open>
  C5 (amended). For every record, \<^verbatim>\<open>createShareText\<close> embeds the category, the status
  and the description in the text as they are, with no character escaped; in place of
  an empty description it writes \<^verbatim>\<open>No description provided\<close>. The text is the template
  without the white space at its ends.
\<close>

theorem createShareText_embeds_verbatim:
  "createShareText h e =
     concat (replicate 20 emoji_heavy_rule) @ nl @
     emoji_clipboard @ '' DATA ENTRY REPORT'' @ nl @
     concat (replicate 20 emoji_heavy_rule) @ nl @
     nl @
     emoji_folder @ '' Category: '' @ category e @ nl @
     emoji_check_mark @ '' Status: '' @ status e @ nl @
     nl @
     emoji_memo @ '' Description:'' @ nl @
     (if description e \<noteq> [] then description e else ''No description provided'') @ nl @
     nl @
     locationText h (location e) @ nl @
     nl @
     photoInfo h (photos e) @ nl @
     nl @
     emoji_alarm_clock @ '' Timestamp: '' @ toLocaleString h (timestamp e) @ nl @
     nl @
     concat (replicate 20 emoji_heavy_rule) @ nl @
     ''Generated by Data Collector App'' \<and>
   sublist (category e) (createShareText h e) \<and>
   sublist (status e) (createShareText h e) \<and>
   (description e \<noteq> [] \<longrightarrow> sublist (description e) (createShareText h e))"
  (is "?text \<and> ?cat \<and> ?stat \<and> (?given \<longrightarrow> ?descr)")
proof (intro conjI impI)
  show ?text by (rule share_text_unfolded)
  show ?cat by (rule category_in_share_text)
  show ?stat by (rule status_in_share_text)
  assume ?given
  then show ?descr by (rule description_in_share_text)
qed

theorem createShareText_embeds_verbatim_witness:
  "description entry_markup \<noteq> [] \<and>
   sublist ''<img src=x onerror=alert(1)>'' (createShareText sample_host entry_markup) \<and>
   sublist ''Inspection'' (createShareText sample_host entry_markup) \<and>
   sublist ''Open'' (createShareText sample_host entry_markup)"
proof -
  have fields: "description entry_markup = ''<img src=x onerror=alert(1)>''"
    "category entry_markup = ''Inspection''" "status entry_markup = ''Open''"
    by (simp_all add: entry_markup_def entry_a_def)
  have given: "description entry_markup \<noteq> []"
    by (simp add: fields)
  note parts = createShareText_embeds_verbatim [of sample_host entry_markup, THEN conjunct2]
  have "sublist (category entry_markup) (createShareText sample_host entry_markup)"
    by (rule parts [THEN conjunct1])
  moreover have "sublist (status entry_markup) (createShareText sample_host entry_markup)"
    by (rule parts [THEN conjunct2, THEN conjunct1])
  moreover have "sublist (description entry_markup) (createShareText sample_host entry_markup)"
    using given by (rule parts [THEN conjunct2, THEN conjunct2, THEN mp])
  ultimately show ?thesis
    using given by (simp only: fields simp_thms)
qed

text \<open>
  The claim as stated fails: the description of the sample entry is markup, its
  escaped form differs from it, and the share text contains the description as it
  is; the text has one \<^verbatim>\<open><\<close>, that of the description, and no \<^verbatim>\<open>&\<close>.
\<close>

theorem createShareText_keeps_markup:
  "CHR ''<'' \<in> set (description entry_markup) \<and>
   escapeHtml (description entry_markup) = ''&lt;img src=x onerror=alert(1)&gt;'' \<and>
   sublist (description entry_markup) (createShareText sample_host entry_markup) \<and>
   count_list (createShareText sample_host entry_markup) CHR ''<'' = 1 \<and>
   count_list (createShareText sample_host entry_markup) CHR ''&'' = 0"
proof -
  have d: "description entry_markup = ''<img src=x onerror=alert(1)>''"
    by (simp add: entry_markup_def)
  have sub: "sublist (description entry_markup) (createShareText sample_host entry_markup)"
    by (rule description_in_share_text) (simp add: d)
  have fields: "category entry_markup = ''Inspection''" "status entry_markup = ''Open''"
    "location entry_markup = None" "photos entry_markup = []"
    by (simp_all add: entry_markup_def entry_a_def)
  have cnt: "count_list (createShareText sample_host entry_markup) CHR ''<'' = 1"
    "count_list (createShareText sample_host entry_markup) CHR ''&'' = 0"
    by (simp_all add: share_text_unfolded d fields sample_host_def count_list_concat_replicate
        locationText_def photoInfo_def nl_def emoji_heavy_rule_def emoji_clipboard_def
        emoji_folder_def emoji_check_mark_def emoji_memo_def emoji_pin_def
        emoji_camera_flash_def emoji_alarm_clock_def)
  have esc: "escapeHtml (description entry_markup) = ''&lt;img src=x onerror=alert(1)&gt;''"
    by (simp add: d escape_char_def)
  show ?thesis
    using sub cnt esc by (simp add: d)
qed

subsection \<open>Effects of the call\<close>

lemma get_prop_reads: "run_state (get_prop i field) s = (field (entries s ! i), s)"
  by (simp add: get_prop_def)

text \<open>In contrast, loading the entries assigns the array.\<close>

lemma loadEntriesOnStartup_assigns:
  "snd (run_state (loadEntriesOnStartup Healthy) s) =
     s\<lparr>entries := array_sort by_timestamp_desc (db s)\<rparr>"
  by (simp add: loadEntriesOnStartup_def set_entries_def getAllFromIndexedDB_def
      store_getAll_def State_Monad.update_def)

text \<open>
  C8. \<^verbatim>\<open>createShareText\<close> is a deterministic pure function of the record: a call for
  a record of \<^verbatim>\<open>entries\<close> changes neither the record nor any other entry nor the
  store, and the text it returns is determined by the record (and the host's
  formatting of numbers and dates), so a second call on the state that the first
  left returns the same text and leaves the same state.
\<close>

theorem createShareText_pure:
  assumes "i < length (entries s)"
  shows "run_state (createShareText_call h i) s = (createShareText h (entries s ! i), s) \<and>
         run_state (createShareText_call h i) (snd (run_state (createShareText_call h i) s)) =
           run_state (createShareText_call h i) s"
proof -
  have once: "run_state (createShareText_call h i) s = (createShareText h (entries s ! i), s)"
    by (simp add: createShareText_call_def get_prop_reads createShareText_def)
  then show ?thesis
    by (simp only: snd_conv simp_thms)
qed

theorem createShareText_pure_witness:
  "1 < length (entries loaded_state) \<and>
   run_state (createShareText_call sample_host 1) loaded_state =
     (createShareText sample_host entry_b, loaded_state) \<and>
   run_state (createShareText_call sample_host 1)
       (snd (run_state (createShareText_call sample_host 1) loaded_state)) =
     (createShareText sample_host entry_b, loaded_state)"
proof -
  have len: "1 < length (entries loaded_state)"
    by (simp add: loaded_state_def)
  have at: "entries loaded_state ! 1 = entry_b"
    by (simp add: loaded_state_def)
  note call = createShareText_pure [OF len, of sample_host]
  have once: "run_state (createShareText_call sample_host 1) loaded_state =
      (createShareText sample_host entry_b, loaded_state)"
    using call [THEN conjunct1] by (simp only: at)
  have "run_state (createShareText_call sample_host 1)
       (snd (run_state (createShareText_call sample_host 1) loaded_state)) =
     (createShareText sample_host entry_b, loaded_state)"
    using call [THEN conjunct2] by (simp only: once)
  then show ?thesis
    using len once by (simp only: simp_thms)
qed

section \<open>Properties of the entry cards\<close>










end
